theory Spec2Isabelle
  imports Main "HOL-Library.AList"
begin

section \<open>JavaScript values and objects\<close>

text \<open>
  The values that reach \<^verbatim>\<open>src/field/index.js\<close>: names, aliases, type labels, lengths and
  the request context are dynamically typed, so they are modelled as one datatype. Numbers
  are the integers (a field length is an integer); \<open>NaN\<close> and fractions are outside the
  model. Strings are lists of 8-bit characters, read as the code units below 256.
\<close>

datatype jsval = JUndefined | JNull | JBool bool | JNum int | JStr string

text \<open>
  An object is its list of own properties, in property order. \<open>obj_get\<close> is \<open>o.k\<close>
  (\<open>undefined\<close> for a missing property), \<open>obj_set\<close> is \<open>o.k = v\<close> and
  \<open>Object_assign\<close> copies the properties of a source onto a target, left to right.
\<close>

type_synonym jsobject = "(string \<times> jsval) list"

definition obj_get :: "jsobject \<Rightarrow> string \<Rightarrow> jsval" where
  "obj_get obj k = (case map_of obj k of None \<Rightarrow> JUndefined | Some v \<Rightarrow> v)"

definition obj_set :: "jsobject \<Rightarrow> string \<Rightarrow> jsval \<Rightarrow> jsobject" where
  "obj_set obj k v = AList.update k v obj"

definition Object_assign :: "jsobject \<Rightarrow> jsobject \<Rightarrow> jsobject" where
  "Object_assign target source = fold (\<lambda>(k, v) t. AList.update k v t) source target"

text \<open>Truthiness, and \<open>a || b\<close>, which yields \<open>a\<close> when it is truthy and \<open>b\<close> otherwise.\<close>

fun truthy :: "jsval \<Rightarrow> bool" where
  "truthy JUndefined = False"
| "truthy JNull = False"
| "truthy (JBool b) = b"
| "truthy (JNum n) = (n \<noteq> 0)"
| "truthy (JStr s) = (s \<noteq> [])"

definition js_or :: "jsval \<Rightarrow> jsval \<Rightarrow> jsval" where
  "js_or a b = (if truthy a then a else b)"

text \<open>
  What the module can throw: a \<open>TypeError\<close> from a method call on a value that has no such
  method, and whatever \<open>esriTypeMap\<close> raises for a label it does not support.
\<close>

datatype error = TypeError | UnsupportedTypeError

text \<open>
  Lower-casing of the ASCII letters. The lowered label is only passed to \<open>esriTypeMap\<close>,
  which is a parameter of the model.
\<close>

definition lower_char :: "char \<Rightarrow> char" where
  "lower_char c =
     (case map_of (zip ''ABCDEFGHIJKLMNOPQRSTUVWXYZ'' ''abcdefghijklmnopqrstuvwxyz'') c of
        None \<Rightarrow> c
      | Some l \<Rightarrow> l)"

text \<open>\<open>type.toLowerCase()\<close>: only a string has the method.\<close>

fun toLowerCase :: "jsval \<Rightarrow> error + string" where
  "toLowerCase (JStr s) = Inr (map lower_char s)"
| "toLowerCase v = Inl TypeError"

section \<open>Array primitives\<close>

text \<open>\<open>Array.prototype.findIndex\<close>: the first index whose element satisfies the test, or \<open>-1\<close>.\<close>

fun findIndex :: "('a \<Rightarrow> bool) \<Rightarrow> 'a list \<Rightarrow> int" where
  "findIndex P [] = - 1"
| "findIndex P (x # xs) =
     (if P x then 0 else (let i = findIndex P xs in if i < 0 then - 1 else i + 1))"

text \<open>
  \<open>xs.splice(start, 1)\<close>: a negative start counts from the end (clamped at 0), a start
  beyond the end is the end. The result is the array of removed elements and the array that
  is left.
\<close>

definition splice_one :: "int \<Rightarrow> 'a list \<Rightarrow> 'a list \<times> 'a list" where
  "splice_one start xs =
     (let len = int (length xs);
          s = (if start < 0 then max (len + start) 0 else min start len);
          k = nat s
      in (take 1 (drop k xs), take k xs @ drop (Suc k) xs))"

text \<open>\<open>xs[0]\<close>, which is \<open>undefined\<close> (\<open>None\<close>) on an empty array.\<close>

definition index0 :: "'a list \<Rightarrow> 'a option" where
  "index0 xs = (case xs of [] \<Rightarrow> None | x # _ \<Rightarrow> Some x)"

text \<open>\<open>xs.map(f)\<close> where \<open>f\<close> may throw: the first exception, left to right, ends the loop.\<close>

fun map_throwing :: "('a \<Rightarrow> error + 'b) \<Rightarrow> 'a list \<Rightarrow> error + 'b list" where
  "map_throwing f [] = Inr []"
| "map_throwing f (x # xs) =
     (case f x of
        Inl e \<Rightarrow> Inl e
      | Inr y \<Rightarrow> (case map_throwing f xs of Inl e \<Rightarrow> Inl e | Inr ys \<Rightarrow> Inr (y # ys)))"

text \<open>
  lodash's \<open>_.find(collection, {key: value})\<close> for a primitive value: the first object with
  \<open>object[key] === value\<close> (and, for the value \<open>undefined\<close>, with the key present).
\<close>

definition lodash_find :: "jsobject list \<Rightarrow> string \<Rightarrow> jsval \<Rightarrow> jsobject option" where
  "lodash_find collection k v =
     find (\<lambda>obj. obj_get obj k = v \<and> (k \<in> fst ` set obj \<or> v \<noteq> JUndefined)) collection"

section \<open>Collaborators that are not part of the module\<close>

text \<open>
  \<^verbatim>\<open>templates/field.json\<close> and \<^verbatim>\<open>templates/oid-field.json\<close>, and \<open>detectType\<close> and
  \<open>esriTypeMap\<close> of \<^verbatim>\<open>./detect-types\<close>, are required by the module and are parameters of
  the model. The type \<open>'v\<close> is the type of the values of a data sample.
\<close>

record templates =
  field :: jsobject
  objectIDField :: jsobject

record 'v deps =
  detectType :: "'v \<Rightarrow> string"
  esriTypeMap :: "string \<Rightarrow> error + string"
  templates :: templates

section \<open>computeFieldObject\<close>

definition computeFieldObject ::
  "'v deps \<Rightarrow> jsval \<Rightarrow> jsval \<Rightarrow> jsval \<Rightarrow> jsval \<Rightarrow> jsval \<Rightarrow> error + jsobject" where
  "computeFieldObject env name alias type length' context =
     (let layer = (\<lambda>outputField.
            if context = JStr ''layer''
            then Object_assign outputField [(''editable'', JBool False), (''nullable'', JBool False)]
            else outputField)
      in if name = JStr ''OBJECTID''
         then Inr (layer (Object_assign [] (objectIDField (templates env))))
         else
           (case toLowerCase type of
              Inl e \<Rightarrow> Inl e
            | Inr lowered \<Rightarrow>
                (case esriTypeMap env lowered of
                   Inl e \<Rightarrow> Inl e
                 | Inr esriType \<Rightarrow>
                     (let outputField =
                            Object_assign (Object_assign [] (field (templates env)))
                              [(''name'', name), (''type'', JStr esriType),
                               (''alias'', js_or alias name)];
                          outputField' =
                            obj_set outputField ''length''
                              (js_or length'
                                 (if type = JStr ''String'' then JNum 128
                                  else if type = JStr ''Date'' then JNum 36
                                  else JUndefined))
                      in Inr (layer outputField')))))"

section \<open>computeFieldsFromProperties\<close>

text \<open>
  A data sample is an object whose values have type \<open>'v\<close>: the list of its entries in the
  order of \<open>Object.keys\<close>, so \<open>Object.keys(properties).map(key => f(key, properties[key]))\<close>
  is a map over the entries. An object has each key once.

  The function returns the array \<open>[]\<close> when there is no sample and the object
  \<open>{ oidField, fields }\<close> otherwise. After the reordering step an element of \<open>fields\<close> can be
  \<open>undefined\<close>, which is \<open>None\<close>.
\<close>

type_synonym 'v sample = "(string \<times> 'v) list"

datatype fields_result = EmptyArray | FieldsObject string "jsobject option list"

record 'v options =
  attributeSample :: "'v sample option"
  outFields :: "string option"

definition computeFieldsFromProperties ::
  "'v deps \<Rightarrow> 'v sample option \<Rightarrow> jsval \<Rightarrow> 'v options \<Rightarrow> error + fields_result" where
  "computeFieldsFromProperties env properties requestContext options =
     (case properties of
        None \<Rightarrow> Inr EmptyArray
      | Some props \<Rightarrow>
          (case map_throwing
                  (\<lambda>(key, v). computeFieldObject env (JStr key) (JStr key)
                                 (JStr (detectType env v)) JUndefined requestContext)
                  props of
             Inl e \<Rightarrow> Inl e
           | Inr fields0 \<Rightarrow>
               (let fields1 =
                      (if requestContext = JStr ''layer''
                          \<and> lodash_find fields0 ''name'' (JStr ''OBJECTID'') = None
                       then fields0 @
                              [Object_assign (Object_assign [] (objectIDField (templates env)))
                                 [(''editable'', JBool False), (''nullable'', JBool False)]]
                       else fields0);
                    (removed, rest) =
                      splice_one
                        (findIndex (\<lambda>f. obj_get f ''name'' = JStr ''OBJECTID'') fields1) fields1
                in Inr (FieldsObject ''OBJECTID'' (index0 removed # map Some rest)))))"

text \<open>\<open>result.fields\<close>: an array has no such property, so the access yields \<open>undefined\<close>.\<close>

fun dot_fields :: "fields_result \<Rightarrow> jsobject option list option" where
  "dot_fields EmptyArray = None"
| "dot_fields (FieldsObject oid fs) = Some fs"

section \<open>computeFieldsFromMetadata\<close>

text \<open>
  The characters that \<open>\s\<close> matches, among the code units below 256: space, tab, line
  feed, vertical tab, form feed, carriage return and the no-break space \<open>U+00A0\<close>.
\<close>

definition isSpace :: "char \<Rightarrow> bool" where
  "isSpace c =
     (c \<in> set [CHR '' '', CHR 0x09, CHR 0x0A, CHR 0x0B, CHR 0x0C, CHR 0x0D, CHR 0xA0])"

text \<open>
  \<open>s.split(/\s*,\s*/)\<close>, as the regular expression matches: scanning left to right, \<open>cur\<close>
  is the piece read so far and \<open>ws\<close> the run of whitespace after it, which belongs to the
  separator when a comma follows and to the piece otherwise. A separator takes all the
  whitespace after its comma.
\<close>

function split_comma_ws :: "string \<Rightarrow> string \<Rightarrow> string \<Rightarrow> string list" where
  "split_comma_ws cur ws [] = [cur @ ws]"
| "split_comma_ws cur ws (c # cs) =
     (if c = CHR '','' then cur # split_comma_ws [] [] (dropWhile isSpace cs)
      else if isSpace c then split_comma_ws cur (ws @ [c]) cs
      else split_comma_ws (cur @ ws @ [c]) [] cs)"
  by pat_completeness auto
termination
  by (relation "measure (\<lambda>(cur, ws, s). length s)")
     (auto simp: length_dropWhile_le less_Suc_eq_le)

definition split_outFields :: "string \<Rightarrow> string list" where
  "split_outFields s = split_comma_ws [] [] s"

text \<open>\<open>outFields.includes(v)\<close> for an array of strings.\<close>

definition array_includes :: "string list \<Rightarrow> jsval \<Rightarrow> bool" where
  "array_includes xs v = (case v of JStr s \<Rightarrow> s \<in> set xs | _ \<Rightarrow> False)"

text \<open>
  The function on values: the metadata array is a list of objects, the clone is the same list,
  and \<open>push\<close> and \<open>filter\<close> build the response from it.
\<close>

definition computeFieldsFromMetadata :: "jsobject list \<Rightarrow> string option \<Rightarrow> jsobject list" where
  "computeFieldsFromMetadata metadataFields outFieldsParam =
     (let responseFields =
            (if lodash_find metadataFields ''name'' (JStr ''OBJECTID'') = None
             then metadataFields @ [[(''name'', JStr ''OBJECTID'')]]
             else metadataFields)
      in case outFieldsParam of
           None \<Rightarrow> responseFields
         | Some s \<Rightarrow>
             if s \<noteq> [] \<and> s \<noteq> ''*''
             then filter (\<lambda>field. array_includes (split_outFields s) (obj_get field ''name''))
                    responseFields
             else responseFields)"

subsection \<open>The same function on a store\<close>

text \<open>
  To say what the call does to the caller's array, arrays and objects live in a store: an
  array is a list of references to objects, a reference is an index into the store, and an
  allocation extends the store. \<open>_.clone\<close> allocates an array with the same references,
  \<open>push\<close> writes to the array it is called on, \<open>filter\<close> allocates its result.
\<close>

record heap =
  arrays :: "nat list list"
  objects :: "jsobject list"

definition new_array :: "heap \<Rightarrow> nat list \<Rightarrow> nat \<times> heap" where
  "new_array h refs = (length (arrays h), h\<lparr>arrays := arrays h @ [refs]\<rparr>)"

definition new_object :: "heap \<Rightarrow> jsobject \<Rightarrow> nat \<times> heap" where
  "new_object h obj = (length (objects h), h\<lparr>objects := objects h @ [obj]\<rparr>)"

definition array_push :: "heap \<Rightarrow> nat \<Rightarrow> nat \<Rightarrow> heap" where
  "array_push h a r = h\<lparr>arrays := (arrays h)[a := arrays h ! a @ [r]]\<rparr>"

definition array_contents :: "heap \<Rightarrow> nat \<Rightarrow> jsobject list" where
  "array_contents h a = map (\<lambda>r. objects h ! r) (arrays h ! a)"

definition computeFieldsFromMetadata_heap :: "heap \<Rightarrow> nat \<Rightarrow> string option \<Rightarrow> nat \<times> heap" where
  "computeFieldsFromMetadata_heap h metadataFields outFieldsParam =
     (let (responseFields, h1) = new_array h (arrays h ! metadataFields);
          h2 = (if lodash_find (array_contents h1 metadataFields) ''name'' (JStr ''OBJECTID'') = None
                then (let (oid, h') = new_object h1 [(''name'', JStr ''OBJECTID'')]
                      in array_push h' responseFields oid)
                else h1)
      in case outFieldsParam of
           None \<Rightarrow> (responseFields, h2)
         | Some s \<Rightarrow>
             if s \<noteq> [] \<and> s \<noteq> ''*''
             then new_array h2
                    (filter (\<lambda>r. array_includes (split_outFields s) (obj_get (objects h2 ! r) ''name''))
                       (arrays h2 ! responseFields))
             else (responseFields, h2))"

text \<open>
  A store is well formed at an array when the array is allocated and so is every object it
  refers to.
\<close>

definition valid_array :: "heap \<Rightarrow> nat \<Rightarrow> bool" where
  "valid_array h a = (a < length (arrays h) \<and> list_all (\<lambda>r. r < length (objects h)) (arrays h ! a))"

section \<open>warnOnMetadataFieldDiscrepencies\<close>

text \<open>
  \<open>console.warn\<close> is the only effect of the module; the model returns the warnings in the
  order they are written, each with the values its message interpolates.
\<close>

datatype warning =
  NotFound jsval jsval
| TypeMismatch jsval jsval string string

definition warnField :: "(string \<times> string) list \<Rightarrow> jsobject \<Rightarrow> warning list" where
  "warnField featureFields field' =
     (case find (\<lambda>(name, t). JStr name = obj_get field' ''name'') featureFields of
        None \<Rightarrow> [NotFound (obj_get field' ''name'') (obj_get field' ''type'')]
      | Some (fname, ftype) \<Rightarrow>
          if obj_get field' ''name'' \<noteq> JStr ''OBJECTID''
             \<and> \<not> (obj_get field' ''type'' = JStr ''Date'' \<and> ftype = ''Integer'')
             \<and> \<not> (obj_get field' ''type'' = JStr ''Double'' \<and> ftype = ''Integer'')
             \<and> obj_get field' ''type'' \<noteq> JStr ftype
          then [TypeMismatch (obj_get field' ''name'') (obj_get field' ''type'') fname ftype]
          else [])"

definition warnOnMetadataFieldDiscrepencies ::
  "'v deps \<Rightarrow> jsobject list \<Rightarrow> 'v sample \<Rightarrow> warning list" where
  "warnOnMetadataFieldDiscrepencies env metadataFields properties =
     (let featureFields = map (\<lambda>(name, v). (name, detectType env v)) properties
      in concat (map (warnField featureFields) metadataFields))"

section \<open>computeFieldsCollection\<close>

record 'v feature =
  properties :: "'v sample option"
  attributes :: "'v sample option"

record metadata =
  fields' :: "jsobject list option"

record 'v data =
  metadata :: "metadata option"
  features :: "'v feature list option"
  statistics :: "'v sample list option"

text \<open>\<open>(data.metadata || {}).fields\<close>: the metadata fields, if the payload declares any.\<close>

definition metadata_fields :: "'v data \<Rightarrow> jsobject list option" where
  "metadata_fields data' = (case metadata data' of None \<Rightarrow> None | Some m \<Rightarrow> fields' m)"

text \<open>
  The constant \<open>properties\<close> of lines 28 and 29: the properties of the first feature, or its
  attributes, or \<open>options.attributeSample\<close> when there is no first feature.
\<close>

definition sample_properties :: "'v data \<Rightarrow> 'v options \<Rightarrow> 'v sample option" where
  "sample_properties data' options =
     (let feature' = (case features data' of None \<Rightarrow> None | Some fs \<Rightarrow> index0 fs)
      in case feature' of
           Some f \<Rightarrow> (case properties f of Some p \<Rightarrow> Some p | None \<Rightarrow> attributes f)
         | None \<Rightarrow> attributeSample options)"

text \<open>
  The result is the warnings written and either the exception thrown or the value returned,
  where the value \<open>undefined\<close> is \<open>None\<close>.
\<close>

definition computeFieldsCollection ::
  "'v deps \<Rightarrow> 'v data \<Rightarrow> jsval \<Rightarrow> 'v options
     \<Rightarrow> warning list \<times> (error + jsobject option list option)" where
  "computeFieldsCollection env data' requestContext options =
     (case metadata_fields data' of
        None \<Rightarrow>
          (case statistics data' of
             Some stats \<Rightarrow>
               ([], map_sum id dot_fields
                      (computeFieldsFromProperties env (index0 stats) requestContext options))
           | None \<Rightarrow>
               ([], map_sum id dot_fields
                      (computeFieldsFromProperties env (sample_properties data' options)
                         requestContext options)))
      | Some mfields \<Rightarrow>
          (let requestedFields = computeFieldsFromMetadata mfields (outFields options);
               warnings =
                 (case sample_properties data' options of
                    Some p \<Rightarrow> warnOnMetadataFieldDiscrepencies env requestedFields p
                  | None \<Rightarrow> [])
           in (warnings,
               case map_throwing
                      (\<lambda>field'. computeFieldObject env (obj_get field' ''name'')
                                   (obj_get field' ''alias'') (obj_get field' ''type'')
                                   (obj_get field' ''length'') requestContext)
                      requestedFields of
                 Inl e \<Rightarrow> Inl e
               | Inr responsefields \<Rightarrow>
                   (let (removed, rest) =
                          splice_one
                            (findIndex (\<lambda>f. obj_get f ''name'' = JStr ''OBJECTID'')
                               responsefields)
                            responsefields
                    in Inr (Some (index0 removed # map Some rest))))))"

section \<open>A concrete environment\<close>

text \<open>
  Modelled from the spec: \<^verbatim>\<open>./detect-types\<close> is not among the sources. The spec gives
  \<open>detectType(42) = Integer\<close> and \<open>detectType("x") = String\<close> and asks for a stable default tag
  on a missing value, which is taken to be \<open>String\<close> here. The general theorems below hold
  for every \<open>detectType\<close>; this one only serves to run the model on concrete inputs.
\<close>

definition spec_detectType :: "jsval \<Rightarrow> string" where
  "spec_detectType v = (case v of JNum n \<Rightarrow> ''Integer'' | _ \<Rightarrow> ''String'')"

text \<open>
  Modelled from the spec: \<open>esriTypeMap\<close> of \<^verbatim>\<open>./detect-types\<close> is not among the sources. The
  spec maps the labels \<open>string\<close>, \<open>integer\<close>, \<open>double\<close> and \<open>date\<close> to their canonical tags
  and lets an unrecognised label fail with an \<open>UnsupportedTypeError\<close>.
\<close>

definition spec_esriTypeMap :: "string \<Rightarrow> error + string" where
  "spec_esriTypeMap label =
     (if label = ''string'' then Inr ''esriFieldTypeString''
      else if label = ''integer'' then Inr ''esriFieldTypeInteger''
      else if label = ''double'' then Inr ''esriFieldTypeDouble''
      else if label = ''date'' then Inr ''esriFieldTypeDate''
      else Inl UnsupportedTypeError)"

text \<open>
  Modelled from the spec: the JSON templates are not among the sources. The spec names the
  identifier field \<open>OBJECTID\<close> and says nothing else about either template, so the identifier
  template has that name and the generic template is empty.
\<close>

definition spec_templates :: templates where
  "spec_templates = \<lparr>field = [], objectIDField = [(''name'', JStr ''OBJECTID'')]\<rparr>"

definition spec_deps :: "jsval deps" where
  "spec_deps =
     \<lparr>detectType = spec_detectType, esriTypeMap = spec_esriTypeMap, templates = spec_templates\<rparr>"

definition no_options :: "jsval options" where
  "no_options = \<lparr>attributeSample = None, outFields = None\<rparr>"

section \<open>Notions used in the statements\<close>

text \<open>The \<open>length\<close> property of the field a call returns, if it returns one.\<close>

definition result_length :: "error + jsobject \<Rightarrow> jsval option" where
  "result_length r = (case r of Inl e \<Rightarrow> None | Inr f \<Rightarrow> Some (obj_get f ''length''))"

text \<open>A field object, or a metadata entry, that is named \<open>OBJECTID\<close>.\<close>

definition is_oid :: "jsobject \<Rightarrow> bool" where
  "is_oid f = (obj_get f ''name'' = JStr ''OBJECTID'')"

text \<open>
  An output collection has exactly one element named \<open>OBJECTID\<close>, and that element is at
  index 0. An element that is \<open>undefined\<close> has no name.
\<close>

fun named_oid :: "jsobject option \<Rightarrow> bool" where
  "named_oid None = False"
| "named_oid (Some f) = is_oid f"

definition oid_first_only :: "jsobject option list \<Rightarrow> bool" where
  "oid_first_only fs =
     (length (filter named_oid fs) = 1 \<and> (case fs of [] \<Rightarrow> False | x # rest \<Rightarrow> named_oid x))"

text \<open>The copy that the code makes of the identifier template is named \<open>OBJECTID\<close>.\<close>

definition oid_template_named :: "'v deps \<Rightarrow> bool" where
  "oid_template_named env = is_oid (Object_assign [] (objectIDField (templates env)))"

text \<open>The entry that \<open>computeFieldsFromMetadata\<close> pushes.\<close>

definition oid_entry :: jsobject where
  "oid_entry = [(''name'', JStr ''OBJECTID'')]"

text \<open>
  An entry passes the \<open>outFields\<close> parameter when no filter applies (the parameter is
  undefined, empty or the wildcard) or the parsed list has the entry's name.
\<close>

definition requested :: "string option \<Rightarrow> jsobject \<Rightarrow> bool" where
  "requested outFieldsParam f =
     (case outFieldsParam of
        None \<Rightarrow> True
      | Some s \<Rightarrow> s = [] \<or> s = ''*'' \<or> array_includes (split_outFields s) (obj_get f ''name''))"

text \<open>
  The spec's reading of the \<open>outFields\<close> parameter, to compare with \<open>split_outFields\<close>: the
  pieces between the commas, each without the whitespace that touches a comma.
\<close>

fun split_commas :: "string \<Rightarrow> string list" where
  "split_commas [] = [[]]"
| "split_commas (c # cs) =
     (if c = CHR '','' then [] # split_commas cs
      else (c # hd (split_commas cs)) # tl (split_commas cs))"

definition lstrip :: "string \<Rightarrow> string" where
  "lstrip s = dropWhile isSpace s"

definition rstrip :: "string \<Rightarrow> string" where
  "rstrip s = rev (dropWhile isSpace (rev s))"

fun trim_after_comma :: "string list \<Rightarrow> string list" where
  "trim_after_comma [] = []"
| "trim_after_comma [p] = [lstrip p]"
| "trim_after_comma (p # q # ps) = rstrip (lstrip p) # trim_after_comma (q # ps)"

fun trim_at_commas :: "string list \<Rightarrow> string list" where
  "trim_at_commas [] = []"
| "trim_at_commas [p] = [p]"
| "trim_at_commas (p # q # ps) = rstrip p # trim_after_comma (q # ps)"

definition spec_outFields_list :: "string \<Rightarrow> string list" where
  "spec_outFields_list s = trim_at_commas (split_commas s)"

section \<open>Basic facts\<close>

lemma obj_get_update:
  "obj_get (AList.update k v obj) k' = (if k' = k then v else obj_get obj k')"
  by (simp add: obj_get_def update_conv')

lemma obj_get_set: "obj_get (obj_set obj k v) k' = (if k' = k then v else obj_get obj k')"
  by (simp add: obj_set_def obj_get_update)

lemma obj_get_assign2:
  "obj_get (Object_assign obj [(k1, v1), (k2, v2)]) k =
     (if k = k2 then v2 else if k = k1 then v1 else obj_get obj k)"
  by (simp add: Object_assign_def obj_get_update)

lemma lodash_find_oid_None:
  "(lodash_find xs ''name'' (JStr ''OBJECTID'') = None) = (\<not> list_ex is_oid xs)"
  by (auto simp: lodash_find_def find_None_iff list_ex_iff is_oid_def)

lemma requested_None: "requested None = (\<lambda>f. True)"
  by (simp add: requested_def fun_eq_iff)

lemma requested_Some:
  "requested (Some s) = (\<lambda>f. s = [] \<or> s = ''*'' \<or> array_includes (split_outFields s) (obj_get f ''name''))"
  by (simp add: requested_def fun_eq_iff)

lemma computeFieldsFromMetadata_filter:
  "computeFieldsFromMetadata mfs p =
     filter (requested p) (mfs @ (if list_ex is_oid mfs then [] else [oid_entry]))"
proof (cases p)
  case None
  then show ?thesis
    by (simp add: computeFieldsFromMetadata_def lodash_find_oid_None requested_None oid_entry_def)
next
  case (Some s)
  then show ?thesis
    by (simp add: computeFieldsFromMetadata_def lodash_find_oid_None requested_Some oid_entry_def)
qed

lemma isSpace_comma: "\<not> isSpace CHR '',''"
  by (simp add: isSpace_def)

lemma split_commas_dropWhile:
  "split_commas (dropWhile isSpace s) = lstrip (hd (split_commas s)) # tl (split_commas s)"
  by (induction s) (auto simp: lstrip_def isSpace_comma)

lemma rstrip_spaces: "list_all isSpace ws \<Longrightarrow> rstrip (xs @ ws) = rstrip xs"
  by (induction ws rule: rev_induct) (auto simp: rstrip_def)

lemma rstrip_id: "cur = [] \<or> \<not> isSpace (last cur) \<Longrightarrow> rstrip cur = cur"
  by (cases cur rule: rev_cases) (auto simp: rstrip_def)

lemma trim_at_lstrip: "trim_at_commas (lstrip q # qs) = trim_after_comma (q # qs)"
  by (cases qs) auto

lemma split_commas_cons: "hd (split_commas s) # tl (split_commas s) = split_commas s"
  by (cases s) auto

lemma split_comma_ws_spec:
  "list_all isSpace ws \<Longrightarrow> cur = [] \<or> \<not> isSpace (last cur) \<Longrightarrow>
   split_comma_ws cur ws s
     = trim_at_commas ((cur @ ws @ hd (split_commas s)) # tl (split_commas s))"
proof (induction cur ws s rule: split_comma_ws.induct)
  case (1 cur ws)
  then show ?case by simp
next
  case (2 cur ws c cs)
  show ?case
  proof (cases "c = CHR '',''")
    case True
    have "split_comma_ws [] [] (dropWhile isSpace cs)
            = trim_at_commas (split_commas (dropWhile isSpace cs))"
      using "2.IH"(1) [OF True] by (simp add: split_commas_cons)
    also have "\<dots> = trim_after_comma (split_commas cs)"
      by (simp add: split_commas_dropWhile trim_at_lstrip split_commas_cons)
    finally have rest: "split_comma_ws [] [] (dropWhile isSpace cs) = trim_after_comma (split_commas cs)" .
    have "rstrip (cur @ ws) = cur"
      using "2.prems" by (simp add: rstrip_spaces rstrip_id)
    moreover obtain q qs where "split_commas cs = q # qs"
      by (cases "split_commas cs") (use split_commas_cons [of cs] in auto)
    ultimately show ?thesis
      using rest True by simp
  next
    case False
    show ?thesis
    proof (cases "isSpace c")
      case True
      with False "2.IH"(2) "2.prems" show ?thesis by simp
    next
      case notsp: False
      with False "2.IH"(3) "2.prems" show ?thesis by simp
    qed
  qed
qed

lemma split_outFields_spec: "split_outFields s = spec_outFields_list s"
  by (simp add: split_outFields_def spec_outFields_list_def split_comma_ws_spec split_commas_cons)


lemmas eval_split = split_outFields_def isSpace_def array_includes_def
lemmas eval_obj = obj_get_def Object_assign_def obj_set_def js_or_def
lemmas eval_meta = computeFieldsFromMetadata_def lodash_find_def metadata_fields_def
  sample_properties_def

lemma is_oid_entry: "is_oid oid_entry"
  by (simp add: is_oid_def oid_entry_def obj_get_def)

lemma filter_is_oid_none: "\<not> list_ex is_oid xs \<Longrightarrow> filter (\<lambda>x. P x \<and> is_oid x) xs = []"
  by (auto simp: list_ex_iff filter_empty_conv)

lemma computeFieldsCollection_metadata:
  assumes "metadata_fields d = Some mfs"
  shows "snd (computeFieldsCollection env d ctx opts) =
     (case map_throwing
             (\<lambda>field'. computeFieldObject env (obj_get field' ''name'')
                          (obj_get field' ''alias'') (obj_get field' ''type'')
                          (obj_get field' ''length'') ctx)
             (computeFieldsFromMetadata mfs (outFields opts)) of
        Inl e \<Rightarrow> Inl e
      | Inr responsefields \<Rightarrow>
          (let (removed, rest) =
                 splice_one (findIndex (\<lambda>f. obj_get f ''name'' = JStr ''OBJECTID'') responsefields)
                   responsefields
           in Inr (Some (index0 removed # map Some rest))))"
  unfolding computeFieldsCollection_def Let_def
  by (simp only: assms option.case snd_conv)

lemma map_throwing_fails:
  "x \<in> set xs \<Longrightarrow> f x = Inl e \<Longrightarrow> \<exists>e'. map_throwing f xs = Inl e'"
proof (induction xs)
  case Nil
  then show ?case by simp
next
  case (Cons a xs)
  show ?case
  proof (cases "f a")
    case (Inl e0)
    then show ?thesis by simp
  next
    case (Inr y)
    with Cons.prems have "x \<in> set xs" by auto
    from Cons.IH [OF this Cons.prems(2)] obtain e' where "map_throwing f xs = Inl e'" ..
    with Inr show ?thesis by simp
  qed
qed

lemma computeFieldObject_no_type:
  "name \<noteq> JStr ''OBJECTID'' \<Longrightarrow> type = JUndefined \<or> type = JNull \<Longrightarrow>
   computeFieldObject env name alias type length' context = Inl TypeError"
  by (auto simp: computeFieldObject_def)

lemma find_feature_field:
  "distinct (map fst props) \<Longrightarrow> (n, v) \<in> set props \<Longrightarrow>
   find (\<lambda>(name, t). JStr name = JStr n) (map (\<lambda>(name, v). (name, dt v)) props) = Some (n, dt v)"
proof (induction props)
  case Nil
  then show ?case by simp
next
  case (Cons p ps)
  obtain k w where p: "p = (k, w)" by (cases p)
  show ?case
  proof (cases "k = n")
    case True
    with Cons.prems p have "w = v" by (auto simp: image_iff)
    with True p show ?thesis by simp
  next
    case False
    with Cons p show ?thesis by auto
  qed
qed

lemma warnField_mismatch_sound:
  "TypeMismatch a b c d \<in> set (warnField ffs f) \<Longrightarrow>
   a \<noteq> JStr ''OBJECTID'' \<and> \<not> (b = JStr ''Date'' \<and> d = ''Integer'')
     \<and> \<not> (b = JStr ''Double'' \<and> d = ''Integer'') \<and> b \<noteq> JStr d"
  by (auto simp: warnField_def split: option.splits if_splits prod.splits)

lemma warnField_found:
  assumes "distinct (map fst props)" and "(n, v) \<in> set props" and "obj_get f ''name'' = JStr n"
  shows "warnField (map (\<lambda>(name, v). (name, dt v)) props) f =
     (if n \<noteq> ''OBJECTID''
         \<and> \<not> (obj_get f ''type'' = JStr ''Date'' \<and> dt v = ''Integer'')
         \<and> \<not> (obj_get f ''type'' = JStr ''Double'' \<and> dt v = ''Integer'')
         \<and> obj_get f ''type'' \<noteq> JStr (dt v)
      then [TypeMismatch (JStr n) (obj_get f ''type'') n (dt v)] else [])"
  using find_feature_field [OF assms(1,2), of dt] assms(3)
  by (simp add: warnField_def)

lemma map_nth_append_old:
  "list_all (\<lambda>r. r < length os) rs \<Longrightarrow> map (\<lambda>r. (os @ extra) ! r) rs = map (\<lambda>r. os ! r) rs"
  by (induction rs) (auto simp: nth_append)

lemma take_append_more: "take (length xs) ys = xs \<Longrightarrow> take (length xs) (ys @ zs) = xs"
  by (metis append_eq_conv_conj append.assoc append_take_drop_id)

lemma nth_of_take: "take (length xs) ys = xs \<Longrightarrow> i < length xs \<Longrightarrow> ys ! i = xs ! i"
  by (metis nth_take)

lemma findIndex_first:
  "\<forall>a\<in>set as. \<not> P a \<Longrightarrow> P x \<Longrightarrow> findIndex P (as @ x # bs) = int (length as)"
  by (induction as) (auto simp: Let_def)

lemma splice_one_at:
  "splice_one (int (length as)) (as @ x # bs) = ([x], as @ bs)"
  by (simp add: splice_one_def)

lemma filter_named_oid_Some: "filter named_oid (map Some xs) = map Some (filter is_oid xs)"
  by (induction xs) auto

lemma reorder_oid_first:
  assumes "length (filter is_oid xs) = 1"
    and "splice_one (findIndex is_oid xs) xs = (removed, rest)"
  shows "oid_first_only (index0 removed # map Some rest)"
proof -
  from assms(1) have "filter is_oid xs \<noteq> []" by auto
  then have "\<exists>x\<in>set xs. is_oid x"
    by (simp add: filter_empty_conv)
  then obtain as x bs where xs: "xs = as @ x # bs" and x: "is_oid x"
    and as: "\<forall>a\<in>set as. \<not> is_oid a"
    by (metis split_list_first_prop)
  from as have fas: "filter is_oid as = []"
    by (simp add: filter_empty_conv)
  with assms(1) xs x have fbs: "filter is_oid bs = []"
    by simp
  from assms(2) have "removed = [x]" and "rest = as @ bs"
    by (simp_all add: xs findIndex_first [OF as x] splice_one_at)
  then show ?thesis
    using x fas fbs by (simp add: oid_first_only_def index0_def filter_named_oid_Some)
qed

lemma is_oid_layer:
  "is_oid (Object_assign f [(''editable'', b), (''nullable'', c)]) = is_oid f"
  by (simp add: is_oid_def Object_assign_def obj_get_update)

lemma computeFieldObject_is_oid:
  assumes "oid_template_named env"
    and "computeFieldObject env name alias type length' context = Inr f"
  shows "is_oid f = (name = JStr ''OBJECTID'')"
proof (cases "name = JStr ''OBJECTID''")
  case True
  with assms show ?thesis
    by (auto simp: computeFieldObject_def oid_template_named_def is_oid_layer split: if_splits)
next
  case False
  with assms(2) show ?thesis
    by (auto simp: computeFieldObject_def Let_def is_oid_def Object_assign_def obj_set_def
        obj_get_update split: sum.splits if_splits)
qed

lemma map_throwing_all2:
  "map_throwing f xs = Inr ys \<Longrightarrow> list_all2 (\<lambda>x y. f x = Inr y) xs ys"
proof (induction xs arbitrary: ys)
  case Nil
  then show ?case by simp
next
  case (Cons x xs)
  then show ?case
    by (auto split: sum.splits)
qed

lemma count_transfer:
  "list_all2 R xs ys \<Longrightarrow> (\<And>x y. R x y \<Longrightarrow> Q y = P x) \<Longrightarrow>
   length (filter Q ys) = length (filter P xs)"
  by (induction rule: list_all2_induct) auto

lemma count_key:
  "distinct (map fst ps) \<Longrightarrow>
   length (filter (\<lambda>p. fst p = k) ps) = (if k \<in> fst ` set ps then 1 else 0)"
  by (induction ps) (auto simp: image_iff)

lemma is_oid_fun: "(\<lambda>f. obj_get f ''name'' = JStr ''OBJECTID'') = is_oid"
  by (simp add: is_oid_def fun_eq_iff)

lemma no_oid_count: "(\<not> list_ex is_oid xs) = (length (filter is_oid xs) = 0)"
  by (auto simp: list_ex_iff filter_empty_conv)

lemma properties_oid_first:
  assumes t: "oid_template_named env"
    and d: "distinct (map fst props)"
    and c: "requestContext = JStr ''layer'' \<or> ''OBJECTID'' \<in> fst ` set props"
    and run: "computeFieldsFromProperties env (Some props) requestContext options
               = Inr (FieldsObject oid fs)"
  shows "oid_first_only fs"
proof -
  let ?build = "\<lambda>(key, v). computeFieldObject env (JStr key) (JStr key)
                   (JStr (detectType env v)) JUndefined requestContext"
  let ?pushed = "Object_assign (Object_assign [] (objectIDField (templates env)))
                   [(''editable'', JBool False), (''nullable'', JBool False)]"
  from run obtain fields0 where m: "map_throwing ?build props = Inr fields0"
    by (auto simp: computeFieldsFromProperties_def split: sum.splits)
  define fields1 where "fields1 =
    (if requestContext = JStr ''layer'' \<and> \<not> list_ex is_oid fields0
     then fields0 @ [?pushed] else fields0)"
  have eq: "computeFieldsFromProperties env (Some props) requestContext options =
      (case splice_one (findIndex is_oid fields1) fields1 of
         (removed, rest) \<Rightarrow> Inr (FieldsObject ''OBJECTID'' (index0 removed # map Some rest)))"
    unfolding computeFieldsFromProperties_def Let_def fields1_def
    by (simp only: option.case m sum.case lodash_find_oid_None is_oid_fun)
  obtain removed rest where sp: "splice_one (findIndex is_oid fields1) fields1 = (removed, rest)"
    by (cases "splice_one (findIndex is_oid fields1) fields1")
  from run eq sp have fs: "fs = index0 removed # map Some rest"
    by simp
  have "length (filter is_oid fields0) = length (filter (\<lambda>p. fst p = ''OBJECTID'') props)"
  proof (rule count_transfer [OF map_throwing_all2 [OF m]])
    fix x y
    assume "?build x = Inr y"
    then show "is_oid y = (fst x = ''OBJECTID'')"
      using computeFieldObject_is_oid [OF t] by (cases x) auto
  qed
  with d have c0: "length (filter is_oid fields0) = (if ''OBJECTID'' \<in> fst ` set props then 1 else 0)"
    by (simp add: count_key)
  have "is_oid ?pushed"
    using t by (simp add: is_oid_layer oid_template_named_def)
  with c c0 have "length (filter is_oid fields1) = 1"
    by (auto simp: fields1_def no_oid_count)
  then show ?thesis
    unfolding fs using sp by (rule reorder_oid_first)
qed

lemma requested_by_name: "is_oid f \<Longrightarrow> requested p f = requested p oid_entry"
  by (cases p) (simp_all add: requested_def is_oid_def oid_entry_def obj_get_def)

lemma requested_oid_count:
  assumes "requested p oid_entry"
  shows "filter (\<lambda>x. requested p x \<and> is_oid x) xs = filter is_oid xs"
proof (rule filter_cong [OF refl])
  fix x
  show "(requested p x \<and> is_oid x) = is_oid x"
    using assms requested_by_name [of x p] by blast
qed

lemma metadata_oid_count:
  assumes "length (filter is_oid mfs) \<le> 1" and "requested p oid_entry"
  shows "length (filter is_oid (computeFieldsFromMetadata mfs p)) = 1"
proof (cases "list_ex is_oid mfs")
  case True
  then have "filter is_oid mfs \<noteq> []"
    by (auto simp: list_ex_iff filter_empty_conv)
  with assms(1) have "length (filter is_oid mfs) = 1"
    by (cases "filter is_oid mfs") auto
  with True show ?thesis
    by (simp add: computeFieldsFromMetadata_filter requested_oid_count [OF assms(2)])
next
  case False
  then have "length (filter is_oid mfs) = 0"
    by (simp add: no_oid_count)
  with False assms(2) show ?thesis
    by (simp add: computeFieldsFromMetadata_filter requested_oid_count [OF assms(2)] is_oid_entry)
qed

lemma metadata_oid_first:
  assumes t: "oid_template_named env"
    and mf: "metadata_fields data' = Some mfs"
    and le: "length (filter is_oid mfs) \<le> 1"
    and rq: "requested (outFields options) oid_entry"
    and run: "snd (computeFieldsCollection env data' requestContext options) = Inr (Some fs)"
  shows "oid_first_only fs"
proof -
  let ?build = "\<lambda>field'. computeFieldObject env (obj_get field' ''name'')
                    (obj_get field' ''alias'') (obj_get field' ''type'')
                    (obj_get field' ''length'') requestContext"
  let ?req = "computeFieldsFromMetadata mfs (outFields options)"
  from run obtain rf where m: "map_throwing ?build ?req = Inr rf"
    unfolding computeFieldsCollection_metadata [OF mf] by (auto split: sum.splits)
  obtain removed rest where sp: "splice_one (findIndex is_oid rf) rf = (removed, rest)"
    by (cases "splice_one (findIndex is_oid rf) rf")
  from run have fs: "fs = index0 removed # map Some rest"
    unfolding computeFieldsCollection_metadata [OF mf] m is_oid_fun sum.case Let_def sp prod.case
    by simp
  have "length (filter is_oid rf) = length (filter is_oid ?req)"
  proof (rule count_transfer [OF map_throwing_all2 [OF m]])
    fix x y
    assume "?build x = Inr y"
    then show "is_oid y = is_oid x"
      using computeFieldObject_is_oid [OF t] by (simp add: is_oid_def)
  qed
  also have "\<dots> = 1"
    using le rq by (rule metadata_oid_count)
  finally show ?thesis
    unfolding fs using sp by (rule reorder_oid_first)
qed

lemma sample_oid_first:
  assumes t: "oid_template_named env"
    and mf: "metadata_fields data' = None"
    and sm: "(case statistics data' of Some stats \<Rightarrow> index0 stats
              | None \<Rightarrow> sample_properties data' options) = Some props"
    and d: "distinct (map fst props)"
    and c: "requestContext = JStr ''layer'' \<or> ''OBJECTID'' \<in> fst ` set props"
    and run: "snd (computeFieldsCollection env data' requestContext options) = Inr (Some fs)"
  shows "oid_first_only fs"
proof -
  have "snd (computeFieldsCollection env data' requestContext options)
          = map_sum id dot_fields (computeFieldsFromProperties env (Some props) requestContext options)"
    using mf sm by (cases "statistics data'") (simp_all add: computeFieldsCollection_def)
  with run obtain r where r: "computeFieldsFromProperties env (Some props) requestContext options = Inr r"
    and f: "dot_fields r = Some fs"
    by (cases "computeFieldsFromProperties env (Some props) requestContext options") auto
  from f obtain oid where "r = FieldsObject oid fs"
    by (cases r) auto
  with r show ?thesis
    using properties_oid_first [OF t d c] by simp
qed

lemmas eval_env = spec_deps_def spec_templates_def spec_esriTypeMap_def spec_detectType_def
  lower_char_def no_options_def

lemmas eval_build = computeFieldObject_def splice_one_def index0_def

section \<open>OBJECTID first (C1)\<close>

text \<open>
  C1, as the spec states it, fails in a context other than \<open>layer\<close> for a sample without an
  \<open>OBJECTID\<close> key: no identifier field is added, so no element of the result is named
  \<open>OBJECTID\<close>.
\<close>

theorem computeFieldsFromProperties_without_oid:
  "computeFieldsFromProperties spec_deps (Some [(''a'', JNum 1), (''b'', JStr ''x'')]) JUndefined
     no_options
   = Inr (FieldsObject ''OBJECTID''
       [Some [(''name'', JStr ''b''), (''type'', JStr ''esriFieldTypeString''),
              (''alias'', JStr ''b''), (''length'', JNum 128)],
        Some [(''name'', JStr ''a''), (''type'', JStr ''esriFieldTypeInteger''),
              (''alias'', JStr ''a''), (''length'', JUndefined)]])
   \<and> \<not> oid_first_only
       [Some [(''name'', JStr ''b''), (''type'', JStr ''esriFieldTypeString''),
              (''alias'', JStr ''b''), (''length'', JNum 128)],
        Some [(''name'', JStr ''a''), (''type'', JStr ''esriFieldTypeInteger''),
              (''alias'', JStr ''a''), (''length'', JUndefined)]]"
  by (simp add: computeFieldsFromProperties_def eval_build eval_obj eval_env oid_first_only_def
      is_oid_def)

text \<open>
  C1, amended: let the identifier template be named \<open>OBJECTID\<close>. A \<open>fields\<close> array returned
  by \<open>computeFieldsFromProperties\<close> has exactly one element named \<open>OBJECTID\<close>, at index 0,
  when the context is \<open>layer\<close> or the sample has an \<open>OBJECTID\<close> key. An array returned by
  \<open>computeFieldsCollection\<close> has exactly one element named \<open>OBJECTID\<close>, at index 0, when there
  are no metadata fields and the sample it inspects satisfies the same condition, and when
  there are metadata fields, at most one of them named \<open>OBJECTID\<close>, and \<open>outFields\<close> is
  undefined, empty, the wildcard or a list that names \<open>OBJECTID\<close>.
\<close>

theorem oid_first:
  assumes "oid_template_named env"
  shows "(distinct (map fst props)
          \<and> (requestContext = JStr ''layer'' \<or> ''OBJECTID'' \<in> fst ` set props)
          \<and> computeFieldsFromProperties env (Some props) requestContext options
              = Inr (FieldsObject oid fs)
          \<longrightarrow> oid_first_only fs)
       \<and> (metadata_fields data' = None
          \<and> (case statistics data' of Some stats \<Rightarrow> index0 stats
               | None \<Rightarrow> sample_properties data' options) = Some props
          \<and> distinct (map fst props)
          \<and> (requestContext = JStr ''layer'' \<or> ''OBJECTID'' \<in> fst ` set props)
          \<and> snd (computeFieldsCollection env data' requestContext options) = Inr (Some fs)
          \<longrightarrow> oid_first_only fs)
       \<and> (metadata_fields data' = Some mfs
          \<and> length (filter is_oid mfs) \<le> 1
          \<and> requested (outFields options) oid_entry
          \<and> snd (computeFieldsCollection env data' requestContext options) = Inr (Some fs)
          \<longrightarrow> oid_first_only fs)"
proof (intro conjI impI)
  assume "distinct (map fst props)
          \<and> (requestContext = JStr ''layer'' \<or> ''OBJECTID'' \<in> fst ` set props)
          \<and> computeFieldsFromProperties env (Some props) requestContext options
              = Inr (FieldsObject oid fs)"
  then have d: "distinct (map fst props)"
    and c: "requestContext = JStr ''layer'' \<or> ''OBJECTID'' \<in> fst ` set props"
    and r: "computeFieldsFromProperties env (Some props) requestContext options
              = Inr (FieldsObject oid fs)"
    by simp_all
  show "oid_first_only fs"
    by (rule properties_oid_first [OF assms d c r])
next
  assume "metadata_fields data' = None
          \<and> (case statistics data' of Some stats \<Rightarrow> index0 stats
               | None \<Rightarrow> sample_properties data' options) = Some props
          \<and> distinct (map fst props)
          \<and> (requestContext = JStr ''layer'' \<or> ''OBJECTID'' \<in> fst ` set props)
          \<and> snd (computeFieldsCollection env data' requestContext options) = Inr (Some fs)"
  then have m: "metadata_fields data' = None"
    and s: "(case statistics data' of Some stats \<Rightarrow> index0 stats
               | None \<Rightarrow> sample_properties data' options) = Some props"
    and d: "distinct (map fst props)"
    and c: "requestContext = JStr ''layer'' \<or> ''OBJECTID'' \<in> fst ` set props"
    and r: "snd (computeFieldsCollection env data' requestContext options) = Inr (Some fs)"
    by simp_all
  show "oid_first_only fs"
    by (rule sample_oid_first [OF assms m s d c r])
next
  assume "metadata_fields data' = Some mfs
          \<and> length (filter is_oid mfs) \<le> 1
          \<and> requested (outFields options) oid_entry
          \<and> snd (computeFieldsCollection env data' requestContext options) = Inr (Some fs)"
  then have m: "metadata_fields data' = Some mfs"
    and l: "length (filter is_oid mfs) \<le> 1"
    and q: "requested (outFields options) oid_entry"
    and r: "snd (computeFieldsCollection env data' requestContext options) = Inr (Some fs)"
    by simp_all
  show "oid_first_only fs"
    by (rule metadata_oid_first [OF assms m l q r])
qed

theorem oid_first_witness:
  "oid_first_only
     [Some [(''name'', JStr ''OBJECTID''), (''editable'', JBool False), (''nullable'', JBool False)],
      Some [(''name'', JStr ''a''), (''type'', JStr ''esriFieldTypeInteger''),
            (''alias'', JStr ''a''), (''length'', JUndefined),
            (''editable'', JBool False), (''nullable'', JBool False)]]
   \<and> oid_first_only
     [Some [(''name'', JStr ''OBJECTID'')],
      Some [(''name'', JStr ''a''), (''type'', JStr ''esriFieldTypeInteger''),
            (''alias'', JStr ''a''), (''length'', JUndefined)]]
   \<and> computeFieldsFromProperties spec_deps (Some [(''a'', JNum 1)]) (JStr ''layer'') no_options
     = Inr (FieldsObject ''OBJECTID''
         [Some [(''name'', JStr ''OBJECTID''), (''editable'', JBool False),
                (''nullable'', JBool False)],
          Some [(''name'', JStr ''a''), (''type'', JStr ''esriFieldTypeInteger''),
                (''alias'', JStr ''a''), (''length'', JUndefined),
                (''editable'', JBool False), (''nullable'', JBool False)]])
   \<and> snd (computeFieldsCollection spec_deps
            \<lparr>metadata = Some \<lparr>fields' = Some [[(''name'', JStr ''a''), (''type'', JStr ''Integer'')]]\<rparr>,
             features = None, statistics = None\<rparr> JUndefined no_options)
     = Inr (Some [Some [(''name'', JStr ''OBJECTID'')],
                  Some [(''name'', JStr ''a''), (''type'', JStr ''esriFieldTypeInteger''),
                        (''alias'', JStr ''a''), (''length'', JUndefined)]])"
proof -
  let ?oidL = "[(''name'', JStr ''OBJECTID''), (''editable'', JBool False), (''nullable'', JBool False)]"
  let ?aL = "[(''name'', JStr ''a''), (''type'', JStr ''esriFieldTypeInteger''),
            (''alias'', JStr ''a''), (''length'', JUndefined),
            (''editable'', JBool False), (''nullable'', JBool False)]"
  let ?oid = "[(''name'', JStr ''OBJECTID'')]"
  let ?a = "[(''name'', JStr ''a''), (''type'', JStr ''esriFieldTypeInteger''),
            (''alias'', JStr ''a''), (''length'', JUndefined)]"
  let ?props = "[(''a'', JNum 1)]"
  let ?d1 = "\<lparr>metadata = None,
              features = Some [\<lparr>properties = Some ?props, attributes = None\<rparr>],
              statistics = None\<rparr>"
  let ?mfs = "[[(''name'', JStr ''a''), (''type'', JStr ''Integer'')]]"
  let ?d2 = "\<lparr>metadata = Some \<lparr>fields' = Some ?mfs\<rparr>, features = None, statistics = None\<rparr>"
  have t: "oid_template_named spec_deps"
    by (simp add: oid_template_named_def is_oid_def eval_obj eval_env)
  have p1: "computeFieldsFromProperties spec_deps (Some ?props) (JStr ''layer'') no_options
              = Inr (FieldsObject ''OBJECTID'' [Some ?oidL, Some ?aL])"
    by (simp add: computeFieldsFromProperties_def eval_build eval_obj eval_env lodash_find_def)
  have s1: "(case statistics ?d1 of Some stats \<Rightarrow> index0 stats
             | None \<Rightarrow> sample_properties ?d1 no_options) = Some ?props"
    by (simp add: sample_properties_def index0_def)
  have c1: "snd (computeFieldsCollection spec_deps ?d1 (JStr ''layer'') no_options)
              = Inr (Some [Some ?oidL, Some ?aL])"
    by (simp add: computeFieldsCollection_def metadata_fields_def sample_properties_def index0_def p1)
  have c2: "snd (computeFieldsCollection spec_deps ?d2 JUndefined no_options)
              = Inr (Some [Some ?oid, Some ?a])"
    by (simp add: computeFieldsCollection_def eval_meta eval_build eval_obj eval_env)
  have m1: "metadata_fields ?d1 = None" and m2: "metadata_fields ?d2 = Some ?mfs"
    by (simp_all add: metadata_fields_def)
  have le: "length (filter is_oid ?mfs) \<le> 1"
    by (simp add: is_oid_def obj_get_def)
  have rq: "requested (outFields no_options) oid_entry"
    by (simp add: requested_def no_options_def)
  have d: "distinct (map fst ?props)"
    by simp
  have cl: "JStr ''layer'' = JStr ''layer'' \<or> ''OBJECTID'' \<in> fst ` set ?props"
    by simp
  have "oid_first_only [Some ?oidL, Some ?aL]"
    using oid_first [OF t, of ?props "JStr ''layer''" no_options "''OBJECTID''"
        "[Some ?oidL, Some ?aL]"]
      d cl p1 by blast
  moreover have "oid_first_only [Some ?oidL, Some ?aL]"
    using oid_first [OF t, of ?props "JStr ''layer''" no_options "''OBJECTID''" "[Some ?oidL, Some ?aL]" ?d1]
      d cl s1 c1 m1 by blast
  moreover have "oid_first_only [Some ?oid, Some ?a]"
    using oid_first [OF t, of ?props JUndefined no_options "''OBJECTID''" "[Some ?oid, Some ?a]" ?d2 ?mfs]
      c2 m2 le rq by blast
  ultimately show ?thesis
    using p1 c2 by blast
qed

section \<open>Nothing to inspect (C2)\<close>

text \<open>
  C2 at its failing input: with no sample, \<open>computeFieldsFromProperties\<close> returns the empty
  array, as C2 says, but \<open>computeFieldsCollection\<close>, with no metadata fields, no features, no
  statistics and no \<open>attributeSample\<close>, reads \<open>.fields\<close> of that array and returns
  \<open>undefined\<close> instead of a field sequence.
\<close>

theorem computeFieldsCollection_no_sample:
  "computeFieldsFromProperties env None requestContext options = Inr EmptyArray
   \<and> computeFieldsCollection env \<lparr>metadata = None, features = None, statistics = None\<rparr>
        requestContext \<lparr>attributeSample = None, outFields = ofs\<rparr> = ([], Inr None)"
  by (simp add: computeFieldsCollection_def computeFieldsFromProperties_def metadata_fields_def
      sample_properties_def)


section \<open>The appended OBJECTID entry (C3)\<close>

text \<open>
  C3, as the spec states it, fails when the \<open>outFields\<close> list does not name \<open>OBJECTID\<close>: the
  entry is pushed before the filter runs and is filtered out like any other.
\<close>

theorem computeFieldsFromMetadata_oid_filtered_out:
  "computeFieldsFromMetadata [[(''name'', JStr ''a'')]] (Some ''a'') = [[(''name'', JStr ''a'')]]"
  by (simp add: eval_meta eval_split eval_obj)

text \<open>
  C3, amended: for a metadata sequence with no entry named \<open>OBJECTID\<close>, when
  \<open>outFieldsParam\<close> is undefined, empty, the wildcard or a list that names \<open>OBJECTID\<close>, the
  output is the entries that pass the filter followed by the pushed entry, and exactly one
  entry of the output is named \<open>OBJECTID\<close>; for any other \<open>outFieldsParam\<close> the output is the
  entries that pass the filter and none is named \<open>OBJECTID\<close>.
\<close>

theorem computeFieldsFromMetadata_oid_entry:
  assumes "\<not> list_ex is_oid mfs"
  shows "(requested p oid_entry \<longrightarrow>
            computeFieldsFromMetadata mfs p = filter (requested p) mfs @ [oid_entry]
            \<and> length (filter is_oid (computeFieldsFromMetadata mfs p)) = 1)
       \<and> (\<not> requested p oid_entry \<longrightarrow>
            computeFieldsFromMetadata mfs p = filter (requested p) mfs
            \<and> length (filter is_oid (computeFieldsFromMetadata mfs p)) = 0)"
  using assms
  by (simp add: computeFieldsFromMetadata_filter filter_is_oid_none is_oid_entry)

theorem computeFieldsFromMetadata_oid_entry_witness:
  "computeFieldsFromMetadata [[(''name'', JStr ''a'')], [(''name'', JStr ''b'')]]
     (Some ''OBJECTID,b'')
     = [[(''name'', JStr ''b'')], oid_entry]
   \<and> length (filter is_oid
        (computeFieldsFromMetadata [[(''name'', JStr ''a'')], [(''name'', JStr ''b'')]]
           (Some ''OBJECTID,b''))) = 1
   \<and> computeFieldsFromMetadata [[(''name'', JStr ''a'')], [(''name'', JStr ''b'')]] (Some ''b'')
     = [[(''name'', JStr ''b'')]]
   \<and> length (filter is_oid
        (computeFieldsFromMetadata [[(''name'', JStr ''a'')], [(''name'', JStr ''b'')]]
           (Some ''b''))) = 0"
proof -
  let ?mfs = "[[(''name'', JStr ''a'')], [(''name'', JStr ''b'')]]"
  have a: "\<not> list_ex is_oid ?mfs"
    by (simp add: is_oid_def obj_get_def)
  have b: "requested (Some ''OBJECTID,b'') oid_entry"
    by (simp add: requested_def oid_entry_def eval_split eval_obj)
  have c: "filter (requested (Some ''OBJECTID,b'')) ?mfs = [[(''name'', JStr ''b'')]]"
    by (simp add: requested_def eval_split eval_obj)
  have b': "\<not> requested (Some ''b'') oid_entry"
    by (simp add: requested_def oid_entry_def eval_split eval_obj)
  have c': "filter (requested (Some ''b'')) ?mfs = [[(''name'', JStr ''b'')]]"
    by (simp add: requested_def eval_split eval_obj)
  from computeFieldsFromMetadata_oid_entry [OF a, of "Some ''OBJECTID,b''"] b
  have e1: "computeFieldsFromMetadata ?mfs (Some ''OBJECTID,b'')
          = filter (requested (Some ''OBJECTID,b'')) ?mfs @ [oid_entry]"
    and n1: "length (filter is_oid (computeFieldsFromMetadata ?mfs (Some ''OBJECTID,b''))) = 1"
    by blast+
  from computeFieldsFromMetadata_oid_entry [OF a, of "Some ''b''"] b'
  have e2: "computeFieldsFromMetadata ?mfs (Some ''b'') = filter (requested (Some ''b'')) ?mfs"
    and n2: "length (filter is_oid (computeFieldsFromMetadata ?mfs (Some ''b''))) = 0"
    by blast+
  have r1: "computeFieldsFromMetadata ?mfs (Some ''OBJECTID,b'')
          = [[(''name'', JStr ''b'')], oid_entry]"
    unfolding e1 c by simp
  have r2: "computeFieldsFromMetadata ?mfs (Some ''b'') = [[(''name'', JStr ''b'')]]"
    unfolding e2 c' by (rule refl)
  from r1 n1 r2 n2 show ?thesis
    by blast
qed

section \<open>Type mismatch warnings (C4)\<close>

text \<open>
  C4: for a metadata field and a sample property of the same name, a type mismatch warning
  for the pair is written if and only if the field is not named \<open>OBJECTID\<close>, its metadata
  type differs from the detected type of the sample value, and the pair is neither metadata
  \<open>Date\<close> with detected \<open>Integer\<close> nor metadata \<open>Double\<close> with detected \<open>Integer\<close>.
\<close>

theorem type_mismatch_warning_iff:
  assumes "distinct (map fst props)"
    and "field' \<in> set metadataFields"
    and "(pname, v) \<in> set props"
    and "obj_get field' ''name'' = JStr pname"
  shows "(TypeMismatch (obj_get field' ''name'') (obj_get field' ''type'') pname (detectType env v)
            \<in> set (warnOnMetadataFieldDiscrepencies env metadataFields props))
       = (obj_get field' ''name'' \<noteq> JStr ''OBJECTID''
          \<and> obj_get field' ''type'' \<noteq> JStr (detectType env v)
          \<and> \<not> (obj_get field' ''type'' = JStr ''Date'' \<and> detectType env v = ''Integer'')
          \<and> \<not> (obj_get field' ''type'' = JStr ''Double'' \<and> detectType env v = ''Integer''))"
proof
  assume "TypeMismatch (obj_get field' ''name'') (obj_get field' ''type'') pname (detectType env v)
            \<in> set (warnOnMetadataFieldDiscrepencies env metadataFields props)"
  then obtain g where "TypeMismatch (obj_get field' ''name'') (obj_get field' ''type'') pname (detectType env v)
      \<in> set (warnField (map (\<lambda>(name, v). (name, detectType env v)) props) g)"
    by (auto simp: warnOnMetadataFieldDiscrepencies_def)
  from warnField_mismatch_sound [OF this]
  show "obj_get field' ''name'' \<noteq> JStr ''OBJECTID''
          \<and> obj_get field' ''type'' \<noteq> JStr (detectType env v)
          \<and> \<not> (obj_get field' ''type'' = JStr ''Date'' \<and> detectType env v = ''Integer'')
          \<and> \<not> (obj_get field' ''type'' = JStr ''Double'' \<and> detectType env v = ''Integer'')"
    by blast
next
  assume c: "obj_get field' ''name'' \<noteq> JStr ''OBJECTID''
          \<and> obj_get field' ''type'' \<noteq> JStr (detectType env v)
          \<and> \<not> (obj_get field' ''type'' = JStr ''Date'' \<and> detectType env v = ''Integer'')
          \<and> \<not> (obj_get field' ''type'' = JStr ''Double'' \<and> detectType env v = ''Integer'')"
  have "warnField (map (\<lambda>(name, v). (name, detectType env v)) props) field'
          = [TypeMismatch (JStr pname) (obj_get field' ''type'') pname (detectType env v)]"
    using c assms(4) by (simp add: warnField_found [OF assms(1,3,4), of "detectType env"])
  with assms(2,4)
  show "TypeMismatch (obj_get field' ''name'') (obj_get field' ''type'') pname (detectType env v)
            \<in> set (warnOnMetadataFieldDiscrepencies env metadataFields props)"
    by (force simp: warnOnMetadataFieldDiscrepencies_def)
qed

theorem type_mismatch_warning_iff_witness:
  "TypeMismatch (JStr ''a'') (JStr ''String'') ''a'' ''Integer''
     \<in> set (warnOnMetadataFieldDiscrepencies spec_deps
              [[(''name'', JStr ''a''), (''type'', JStr ''String'')]] [(''a'', JNum 1)])
   \<and> TypeMismatch (JStr ''a'') (JStr ''Date'') ''a'' ''Integer''
     \<notin> set (warnOnMetadataFieldDiscrepencies spec_deps
              [[(''name'', JStr ''a''), (''type'', JStr ''Date'')]] [(''a'', JNum 1)])"
  using type_mismatch_warning_iff [of "[(''a'', JNum 1)]" "[(''name'', JStr ''a''), (''type'', JStr ''String'')]"
              "[[(''name'', JStr ''a''), (''type'', JStr ''String'')]]" "''a''" "JNum 1" spec_deps]
        type_mismatch_warning_iff [of "[(''a'', JNum 1)]" "[(''name'', JStr ''a''), (''type'', JStr ''Date'')]"
              "[[(''name'', JStr ''a''), (''type'', JStr ''Date'')]]" "''a''" "JNum 1" spec_deps]
  by (simp add: obj_get_def spec_deps_def spec_detectType_def)

section \<open>Filtering by outFields (C5)\<close>

text \<open>
  C5, as the spec states it, fails for the provided value \<open>""\<close>: line 136 tests the
  parameter for truthiness, so the empty string applies no filter and every entry is kept,
  although the list read from \<open>""\<close> holds only the empty name.
\<close>

theorem computeFieldsFromMetadata_empty_outFields:
  "computeFieldsFromMetadata [[(''name'', JStr ''a'')]] (Some [])
     = [[(''name'', JStr ''a'')], [(''name'', JStr ''OBJECTID'')]]
   \<and> spec_outFields_list [] = [[]]
   \<and> \<not> array_includes (spec_outFields_list []) (JStr ''a'')"
  by (simp add: computeFieldsFromMetadata_def lodash_find_def obj_get_def spec_outFields_list_def
      array_includes_def)

text \<open>
  C5, amended: for an \<open>outFieldsParam\<close> that is provided, is not the empty string and is not
  the wildcard, the parameter is read as the list of its comma-separated pieces without the
  whitespace next to each comma, and the result is the metadata entries (with the pushed
  \<open>OBJECTID\<close> entry, when one is pushed) whose name is in that list, in the order of the
  metadata.
\<close>

theorem computeFieldsFromMetadata_outFields:
  assumes "s \<noteq> []" and "s \<noteq> ''*''"
  shows "split_outFields s = spec_outFields_list s
    \<and> computeFieldsFromMetadata mfs (Some s)
        = filter (\<lambda>f. array_includes (spec_outFields_list s) (obj_get f ''name''))
            (mfs @ (if list_ex is_oid mfs then [] else [oid_entry]))"
  using assms
  by (simp add: computeFieldsFromMetadata_filter requested_Some split_outFields_spec)

theorem computeFieldsFromMetadata_outFields_witness:
  "computeFieldsFromMetadata
     [[(''name'', JStr ''a'')], [(''name'', JStr ''b'')], [(''name'', JStr ''c'')]]
     (Some ''b , a'')
   = [[(''name'', JStr ''a'')], [(''name'', JStr ''b'')]]"
proof -
  have "spec_outFields_list ''b , a'' = [''b'', ''a'']"
    by (simp add: spec_outFields_list_def rstrip_def lstrip_def isSpace_def)
  then show ?thesis
    using computeFieldsFromMetadata_outFields [of "''b , a''" "[[(''name'', JStr ''a'')], [(''name'', JStr ''b'')], [(''name'', JStr ''c'')]]"]
    by (simp add: is_oid_def oid_entry_def obj_get_def array_includes_def)
qed

section \<open>A field without a type (C10)\<close>

text \<open>
  C10, as stated, fails for a field that the \<open>outFields\<close> filter drops: it is never built,
  so its missing type throws nothing and the call returns.
\<close>

theorem computeFieldsCollection_untyped_field_filtered:
  "computeFieldsCollection spec_deps
     \<lparr>metadata = Some \<lparr>fields' = Some [[(''name'', JStr ''a'')],
                                       [(''name'', JStr ''b''), (''type'', JStr ''String'')]]\<rparr>,
      features = None, statistics = None\<rparr>
     JUndefined \<lparr>attributeSample = None, outFields = Some ''b''\<rparr>
   = ([], Inr (Some [Some [(''name'', JStr ''b''), (''type'', JStr ''esriFieldTypeString''),
                           (''alias'', JStr ''b''), (''length'', JNum 128)]]))"
  by (simp add: computeFieldsCollection_def eval_meta eval_split eval_obj computeFieldObject_def
      spec_deps_def spec_templates_def spec_esriTypeMap_def lower_char_def splice_one_def index0_def)

text \<open>
  C10, amended: for a name other than \<open>OBJECTID\<close>, \<open>computeFieldObject\<close> throws a
  \<open>TypeError\<close> when the type is \<open>undefined\<close> or \<open>null\<close>; and a metadata field that is not
  named \<open>OBJECTID\<close>, has no type and passes the \<open>outFields\<close> filter makes the whole
  \<open>computeFieldsCollection\<close> call throw.
\<close>

theorem missing_type_fails:
  "(name \<noteq> JStr ''OBJECTID'' \<and> (type = JUndefined \<or> type = JNull) \<longrightarrow>
      computeFieldObject env name alias type length' context = Inl TypeError)
   \<and> (metadata_fields data' = Some mfs \<and> f \<in> set mfs
        \<and> requested (outFields options) f \<and> \<not> is_oid f
        \<and> (obj_get f ''type'' = JUndefined \<or> obj_get f ''type'' = JNull) \<longrightarrow>
      (\<exists>e. snd (computeFieldsCollection env data' requestContext options) = Inl e))"
proof (intro conjI impI)
  assume "name \<noteq> JStr ''OBJECTID'' \<and> (type = JUndefined \<or> type = JNull)"
  then show "computeFieldObject env name alias type length' context = Inl TypeError"
    using computeFieldObject_no_type by blast
next
  assume h: "metadata_fields data' = Some mfs \<and> f \<in> set mfs
        \<and> requested (outFields options) f \<and> \<not> is_oid f
        \<and> (obj_get f ''type'' = JUndefined \<or> obj_get f ''type'' = JNull)"
  let ?build = "\<lambda>field'. computeFieldObject env (obj_get field' ''name'')
                    (obj_get field' ''alias'') (obj_get field' ''type'')
                    (obj_get field' ''length'') requestContext"
  from h have md: "metadata_fields data' = Some mfs"
    and f: "f \<in> set mfs" and rq: "requested (outFields options) f"
    and nm: "obj_get f ''name'' \<noteq> JStr ''OBJECTID''"
    and ty: "obj_get f ''type'' = JUndefined \<or> obj_get f ''type'' = JNull"
    unfolding is_oid_def by blast+
  from f rq have mem: "f \<in> set (computeFieldsFromMetadata mfs (outFields options))"
    by (simp add: computeFieldsFromMetadata_filter)
  have bf: "?build f = Inl TypeError"
    using nm ty by (rule computeFieldObject_no_type)
  have "\<exists>e. map_throwing ?build (computeFieldsFromMetadata mfs (outFields options)) = Inl e"
    by (rule map_throwing_fails [where f = "?build" and x = f, OF mem]) (rule bf)
  then obtain e
    where "map_throwing ?build (computeFieldsFromMetadata mfs (outFields options)) = Inl e" ..
  then have "snd (computeFieldsCollection env data' requestContext options) = Inl e"
    by (simp add: computeFieldsCollection_metadata [OF md])
  then show "\<exists>e. snd (computeFieldsCollection env data' requestContext options) = Inl e" ..
qed

theorem missing_type_fails_witness:
  "computeFieldObject spec_deps (JStr ''a'') JUndefined JNull JUndefined JUndefined = Inl TypeError
   \<and> (\<exists>e. snd (computeFieldsCollection spec_deps
         \<lparr>metadata = Some \<lparr>fields' = Some [[(''name'', JStr ''a'')]]\<rparr>,
          features = None, statistics = None\<rparr> JUndefined no_options) = Inl e)"
  using missing_type_fails [of "JStr ''a''" JNull spec_deps JUndefined JUndefined JUndefined
      "\<lparr>metadata = Some \<lparr>fields' = Some [[(''name'', JStr ''a'')]]\<rparr>, features = None, statistics = None\<rparr>"
      "[[(''name'', JStr ''a'')]]" "[(''name'', JStr ''a'')]"
      no_options JUndefined]
  by (simp add: metadata_fields_def requested_def no_options_def is_oid_def obj_get_def)


section \<open>The length of a field (C6)\<close>

text \<open>
  C6, as the spec states it, fails for an explicit length of \<open>0\<close>: \<open>length || ...\<close> treats
  it as absent, so a \<open>String\<close> field asked to have length \<open>0\<close> gets \<open>128\<close>.
\<close>

theorem computeFieldObject_length_zero_ignored:
  "result_length
     (computeFieldObject spec_deps (JStr ''x'') JNull (JStr ''String'') (JNum 0) JUndefined)
   = Some (JNum 128)"
  by (simp add: result_length_def computeFieldObject_def spec_deps_def spec_esriTypeMap_def
      lower_char_def obj_get_set js_or_def)

text \<open>
  C6, amended: for a name other than \<open>OBJECTID\<close>, whenever the type is a string whose
  lowercase label \<open>esriTypeMap\<close> accepts, \<open>computeFieldObject\<close> returns a field whose
  \<open>length\<close> is the explicit length if that is truthy (given and not \<open>0\<close>), whatever the type;
  otherwise \<open>128\<close> for type \<open>String\<close>, \<open>36\<close> for type \<open>Date\<close>, and \<open>undefined\<close> for any other
  type.
\<close>

theorem computeFieldObject_length:
  assumes "name \<noteq> JStr ''OBJECTID''"
    and "toLowerCase type = Inr lowered"
    and "esriTypeMap env lowered = Inr esriType"
  shows "result_length (computeFieldObject env name alias type length' context)
     = Some (if truthy length' then length'
             else if type = JStr ''String'' then JNum 128
             else if type = JStr ''Date'' then JNum 36
             else JUndefined)"
  using assms
  by (simp add: result_length_def computeFieldObject_def Let_def obj_get_set obj_get_assign2
      js_or_def)

theorem computeFieldObject_length_witness:
  "result_length
     (computeFieldObject spec_deps (JStr ''x'') JNull (JStr ''Date'') (JNum 7) (JStr ''layer''))
   = Some (JNum 7)
   \<and> result_length
     (computeFieldObject spec_deps (JStr ''x'') JNull (JStr ''Date'') JUndefined (JStr ''layer''))
   = Some (JNum 36)"
proof -
  have n: "JStr ''x'' \<noteq> JStr ''OBJECTID''" by simp
  have l: "toLowerCase (JStr ''Date'') = Inr ''date''" by (simp add: lower_char_def)
  have e: "esriTypeMap spec_deps ''date'' = Inr ''esriFieldTypeDate''"
    by (simp add: spec_deps_def spec_esriTypeMap_def)
  show ?thesis
    using computeFieldObject_length [OF n l e, of JNull "JNum 7" "JStr ''layer''"]
      computeFieldObject_length [OF n l e, of JNull JUndefined "JStr ''layer''"]
    by simp
qed

section \<open>The wildcard (C7)\<close>

text \<open>
  C7: for every metadata sequence, \<open>computeFieldsFromMetadata\<close> with \<open>outFieldsParam = "*"\<close>
  returns what it returns with \<open>outFieldsParam\<close> undefined.
\<close>

theorem computeFieldsFromMetadata_wildcard:
  "computeFieldsFromMetadata metadataFields (Some ''*'')
   = computeFieldsFromMetadata metadataFields None"
  by (simp add: computeFieldsFromMetadata_def)

section \<open>The caller's metadata array (C8)\<close>

text \<open>
  C8: a call of \<open>computeFieldsFromMetadata\<close> leaves the caller's array and its elements as
  they were: the array still holds the same references, the objects they refer to are
  unchanged, as is everything else that was allocated before the call; the result is a
  different array, and its contents are what the function on values computes.
\<close>

theorem computeFieldsFromMetadata_heap_frame:
  assumes v: "valid_array h a"
    and run: "computeFieldsFromMetadata_heap h a p = (r, h')"
  shows "arrays h' ! a = arrays h ! a
     \<and> array_contents h' a = array_contents h a
     \<and> take (length (arrays h)) (arrays h') = arrays h
     \<and> take (length (objects h)) (objects h') = objects h
     \<and> r \<noteq> a
     \<and> array_contents h' r = computeFieldsFromMetadata (array_contents h a) p"
proof -
  define c where "c = array_contents h a"
  define none where "none = (lodash_find c ''name'' (JStr ''OBJECTID'') = None)"
  define h2 where "h2 = (if none
      then h\<lparr>objects := objects h @ [[(''name'', JStr ''OBJECTID'')]],
             arrays := arrays h @ [arrays h ! a @ [length (objects h)]]\<rparr>
      else h\<lparr>arrays := arrays h @ [arrays h ! a]\<rparr>)"
  define l where "l = length (arrays h)"
  from v have a: "a < length (arrays h)"
    and rs: "list_all (\<lambda>r. r < length (objects h)) (arrays h ! a)"
    by (simp_all add: valid_array_def)
  have c1: "array_contents (h\<lparr>arrays := arrays h @ [arrays h ! a]\<rparr>) a = c"
    using a by (simp add: array_contents_def c_def nth_append)
  have eq: "computeFieldsFromMetadata_heap h a p =
     (case p of
        None \<Rightarrow> (l, h2)
      | Some s \<Rightarrow>
          if s \<noteq> [] \<and> s \<noteq> ''*''
          then new_array h2
                 (filter (\<lambda>r. array_includes (split_outFields s) (obj_get (objects h2 ! r) ''name''))
                    (arrays h2 ! l))
          else (l, h2))"
    unfolding computeFieldsFromMetadata_heap_def new_array_def [of h] new_object_def array_push_def
      Let_def prod.case c1
    by (cases p; cases "lodash_find c ''name'' (JStr ''OBJECTID'') = None")
      (auto simp: h2_def none_def l_def)
  have resp: "map (\<lambda>r. objects h2 ! r) (arrays h2 ! l)
           = (if none then c @ [[(''name'', JStr ''OBJECTID'')]] else c)"
    using map_nth_append_old [OF rs, of "[[(''name'', JStr ''OBJECTID'')]]"]
    by (simp add: h2_def c_def array_contents_def l_def)
  have l2: "length (arrays h2) = Suc l"
    by (simp add: h2_def l_def)
  have A2: "take (length (arrays h)) (arrays h2) = arrays h"
    by (simp add: h2_def)
  have O2: "take (length (objects h)) (objects h2) = objects h"
    by (simp add: h2_def)
  have main: "take (length (arrays h)) (arrays h') = arrays h
     \<and> take (length (objects h)) (objects h') = objects h
     \<and> l \<le> r
     \<and> array_contents h' r = computeFieldsFromMetadata c p"
  proof (cases "\<exists>s. p = Some s \<and> s \<noteq> [] \<and> s \<noteq> ''*''")
    case True
    then obtain s where s: "p = Some s" "s \<noteq> []" "s \<noteq> ''*''" by blast
    let ?keep = "\<lambda>f. array_includes (split_outFields s) (obj_get f ''name'')"
    let ?xs = "filter (\<lambda>r. ?keep (objects h2 ! r)) (arrays h2 ! l)"
    from run eq s have "new_array h2 ?xs = (r, h')" by simp
    then have r: "r = Suc l" and ar: "arrays h' = arrays h2 @ [?xs]" and ob: "objects h' = objects h2"
      by (auto simp: new_array_def l2)
    have "array_contents h' r = map (\<lambda>r. objects h2 ! r) ?xs"
      by (simp add: array_contents_def r ar ob l2 [symmetric])
    also have "\<dots> = filter ?keep (map (\<lambda>r. objects h2 ! r) (arrays h2 ! l))"
      by (simp add: filter_map comp_def)
    also have "\<dots> = filter ?keep (if none then c @ [[(''name'', JStr ''OBJECTID'')]] else c)"
      by (simp only: resp)
    also have "\<dots> = computeFieldsFromMetadata c (Some s)"
      using s(2,3) by (simp add: computeFieldsFromMetadata_def none_def)
    also have "\<dots> = computeFieldsFromMetadata c p"
      by (simp only: s(1))
    finally have res: "array_contents h' r = computeFieldsFromMetadata c p" .
    have "take (length (arrays h)) (arrays h') = arrays h"
      unfolding ar by (rule take_append_more [OF A2])
    moreover have "take (length (objects h)) (objects h') = objects h"
      unfolding ob by (rule O2)
    moreover have "l \<le> r"
      by (simp add: r)
    ultimately show ?thesis
      using res by blast
  next
    case False
    with run eq have r: "r = l" and h': "h' = h2"
      by (cases p; auto)+
    have "computeFieldsFromMetadata c p = (if none then c @ [[(''name'', JStr ''OBJECTID'')]] else c)"
      using False by (cases p) (auto simp: computeFieldsFromMetadata_def none_def)
    then have "array_contents h' r = computeFieldsFromMetadata c p"
      unfolding array_contents_def r h' by (simp only: resp)
    then show ?thesis
      using A2 O2 by (simp add: r h')
  qed
  then have A: "take (length (arrays h)) (arrays h') = arrays h"
    and O: "take (length (objects h)) (objects h') = objects h"
    and lr: "l \<le> r"
    and res: "array_contents h' r = computeFieldsFromMetadata c p"
    by simp_all
  from A a have same: "arrays h' ! a = arrays h ! a"
    by (rule nth_of_take)
  have "map (\<lambda>r. objects h' ! r) (arrays h ! a) = map (\<lambda>r. objects h ! r) (arrays h ! a)"
    using rs nth_of_take [OF O] by (simp add: list_all_iff)
  then have "array_contents h' a = array_contents h a"
    by (simp add: array_contents_def same)
  moreover from a lr have "r \<noteq> a"
    by (simp add: l_def)
  ultimately show ?thesis
    using same A O res by (simp add: c_def)
qed

theorem computeFieldsFromMetadata_heap_frame_witness:
  "computeFieldsFromMetadata_heap \<lparr>arrays = [[0]], objects = [[(''name'', JStr ''a'')]]\<rparr> 0 (Some ''a'')
     = (2, \<lparr>arrays = [[0], [0, 1], [0]],
            objects = [[(''name'', JStr ''a'')], [(''name'', JStr ''OBJECTID'')]]\<rparr>)
   \<and> array_contents \<lparr>arrays = [[0], [0, 1], [0]],
            objects = [[(''name'', JStr ''a'')], [(''name'', JStr ''OBJECTID'')]]\<rparr> 0
       = array_contents \<lparr>arrays = [[0]], objects = [[(''name'', JStr ''a'')]]\<rparr> 0
   \<and> array_contents \<lparr>arrays = [[0], [0, 1], [0]],
            objects = [[(''name'', JStr ''a'')], [(''name'', JStr ''OBJECTID'')]]\<rparr> 2
       = computeFieldsFromMetadata [[(''name'', JStr ''a'')]] (Some ''a'')"
proof -
  let ?h = "\<lparr>arrays = [[0]], objects = [[(''name'', JStr ''a'')]]\<rparr>"
  let ?h' = "\<lparr>arrays = [[0], [0, 1], [0]],
            objects = [[(''name'', JStr ''a'')], [(''name'', JStr ''OBJECTID'')]]\<rparr>"
  have v: "valid_array ?h 0"
    by (simp add: valid_array_def)
  have run: "computeFieldsFromMetadata_heap ?h 0 (Some ''a'') = (2, ?h')"
    by (simp add: computeFieldsFromMetadata_heap_def new_array_def new_object_def array_push_def
        array_contents_def lodash_find_def obj_get_def split_outFields_def isSpace_def
        array_includes_def)
  have c: "array_contents ?h 0 = [[(''name'', JStr ''a'')]]"
    by (simp add: array_contents_def)
  from computeFieldsFromMetadata_heap_frame [OF v run] run c show ?thesis
    by (simp only: simp_thms)
qed

section \<open>A sample without keys (C9)\<close>

text \<open>
  C9: for a sample that is defined but has no keys, in a context other than \<open>layer\<close>,
  \<open>computeFieldsFromProperties\<close> returns a \<open>fields\<close> array of length 1 whose only element
  is \<open>undefined\<close>.
\<close>

theorem computeFieldsFromProperties_no_keys:
  "requestContext \<noteq> JStr ''layer'' \<Longrightarrow>
   computeFieldsFromProperties env (Some []) requestContext options
     = Inr (FieldsObject ''OBJECTID'' [None])"
  by (simp add: computeFieldsFromProperties_def splice_one_def index0_def)

theorem computeFieldsFromProperties_no_keys_witness:
  "computeFieldsFromProperties spec_deps (Some []) JUndefined no_options
     = Inr (FieldsObject ''OBJECTID'' [None])"
  using computeFieldsFromProperties_no_keys [of JUndefined spec_deps no_options] by simp

end
